theory Spec2Isabelle
  imports Main "HOL-Library.Sublist" "HOL-Library.List_Lexorder"
begin

section \<open>Strings\<close>

text \<open>
  A Python \<open>str\<close> is a sequence of Unicode code points, so it is modelled as a list of
  natural numbers, one per code point. \<open>lit\<close> turns an ASCII literal of the source into
  such a list; the characters of the source outside ASCII are written as numbers.
\<close>

type_synonym str = "nat list"

definition lit :: "string \<Rightarrow> str" where
  "lit s = map of_char s"

text \<open>The characters the program names: newline, colon and hyphen.\<close>

definition NL :: nat where "NL = 10"
definition COLON :: nat where "COLON = 58"
definition HYPHEN :: nat where "HYPHEN = 45"

text \<open>The only exception the modelled functions could raise is the one of tuple unpacking.\<close>

datatype py_error = ValueError

subsection \<open>Methods of \<open>str\<close>\<close>

text \<open>\<open>s.startswith(p)\<close>.\<close>

definition startswith :: "str \<Rightarrow> str \<Rightarrow> bool" where
  "startswith s p = prefix p s"

text \<open>
  \<open>c in s\<close> for a one-character string \<open>c\<close>, which is how the source uses it.
\<close>

definition py_in :: "nat \<Rightarrow> str \<Rightarrow> bool" where
  "py_in c s = (c \<in> set s)"

text \<open>
  \<open>str.isspace\<close> on one code point: the characters \<open>str.strip()\<close> removes.
  They are U+0009..U+000D, U+001C..U+0020, U+0085, U+00A0, U+1680, U+2000..U+200A,
  U+2028, U+2029, U+202F, U+205F and U+3000.
\<close>

definition isspace :: "nat \<Rightarrow> bool" where
  "isspace c \<longleftrightarrow>
     (9 \<le> c \<and> c \<le> 13) \<or> (28 \<le> c \<and> c \<le> 32) \<or> c = 133 \<or> c = 160 \<or> c = 5760 \<or>
     (8192 \<le> c \<and> c \<le> 8202) \<or> c = 8232 \<or> c = 8233 \<or> c = 8239 \<or> c = 8287 \<or> c = 12288"

text \<open>\<open>s.strip()\<close>: whitespace removed at both ends.\<close>

definition py_strip :: "str \<Rightarrow> str" where
  "py_strip s = rev (dropWhile isspace (rev (dropWhile isspace s)))"

text \<open>
  \<open>s.split(sep, maxsplit)\<close> for a one-character separator, which is all the source
  passes. \<open>None\<close> is the default \<open>maxsplit = -1\<close> (no limit). The scan goes from the
  left; once the limit is used up the rest of the string is the last part. The result
  is never empty.
\<close>

fun py_split :: "nat \<Rightarrow> nat option \<Rightarrow> str \<Rightarrow> str list" where
  "py_split sep lim [] = [[]]"
| "py_split sep lim (c # cs) =
     (if c = sep \<and> lim \<noteq> Some 0
      then [] # py_split sep (map_option (\<lambda>n. n - 1) lim) cs
      else (let ps = py_split sep lim cs in (c # hd ps) # tl ps))"

text \<open>\<open>sep.join(parts)\<close>.\<close>

fun py_join :: "str \<Rightarrow> str list \<Rightarrow> str" where
  "py_join sep [] = []"
| "py_join sep [p] = p"
| "py_join sep (p # q # ps) = p @ sep @ py_join sep (q # ps)"

text \<open>
  \<open>s.replace(old, new)\<close>: every occurrence of \<open>old\<close>, found from the left and not
  overlapping, is replaced. For an empty \<open>old\<close> Python puts \<open>new\<close> before every
  character and at the end.
\<close>

fun replace_nonempty :: "str \<Rightarrow> str \<Rightarrow> str \<Rightarrow> str" where
  "replace_nonempty old new [] = []"
| "replace_nonempty old new (c # cs) =
     (if old \<noteq> [] \<and> prefix old (c # cs)
      then new @ replace_nonempty old new (drop (length old) (c # cs))
      else c # replace_nonempty old new cs)"

definition py_replace :: "str \<Rightarrow> str \<Rightarrow> str \<Rightarrow> str" where
  "py_replace old new s =
     (if old = [] then new @ concat (map (\<lambda>c. c # new) s) else replace_nonempty old new s)"

section \<open>The frontmatter parser\<close>

text \<open>
  \<open>re.match(r'^---\n(.*?)\n---\n(.*)', content, re.DOTALL)\<close>. With \<open>DOTALL\<close> a dot
  matches every character, so the lazy group 1 grows one character at a time until
  the literal \<open>\n---\n\<close> follows it, and the greedy group 2 takes all the rest.
  \<open>lazy_until pat s\<close> is that search: the shortest \<open>g\<close> with \<open>s = g @ pat @ r\<close>,
  and \<open>r\<close>.
\<close>

fun lazy_until :: "str \<Rightarrow> str \<Rightarrow> (str \<times> str) option" where
  "lazy_until pat [] = (if pat = [] then Some ([], []) else None)"
| "lazy_until pat (c # cs) =
     (if prefix pat (c # cs) then Some ([], drop (length pat) (c # cs))
      else map_option (\<lambda>(g, r). (c # g, r)) (lazy_until pat cs))"

definition re_match_frontmatter :: "str \<Rightarrow> (str \<times> str) option" where
  "re_match_frontmatter content =
     (if prefix (lit ''---'' @ [NL]) content
      then lazy_until (NL # lit ''---'' @ [NL]) (drop 4 content)
      else None)"

text \<open>
  The loop over the lines of the block. \<open>key, value = line.split(':', 1)\<close> unpacks a
  list of exactly two parts and raises \<open>ValueError\<close> otherwise.
\<close>

fun parse_lines :: "str list \<Rightarrow> (str \<rightharpoonup> str) \<Rightarrow> py_error + (str \<rightharpoonup> str)" where
  "parse_lines [] metadata = Inr metadata"
| "parse_lines (line # rest) metadata =
     (if py_in COLON line then
        (case py_split COLON (Some 1) line of
           [key, val] \<Rightarrow> parse_lines rest (metadata(py_strip key \<mapsto> py_strip val))
         | _ \<Rightarrow> Inl ValueError)
      else parse_lines rest metadata)"

definition parse_frontmatter :: "str \<Rightarrow> py_error + ((str \<rightharpoonup> str) \<times> str)" where
  "parse_frontmatter content =
     (if \<not> startswith content (lit ''---'') then Inr (Map.empty, content)
      else case re_match_frontmatter content of
        None \<Rightarrow> Inr (Map.empty, content)
      | Some (frontmatter_text, body) \<Rightarrow>
          (case parse_lines (py_split NL None frontmatter_text) Map.empty of
             Inl e \<Rightarrow> Inl e
           | Inr metadata \<Rightarrow> Inr (metadata, body)))"

section \<open>The slug of a file name\<close>

definition get_slug_from_filename :: "str \<Rightarrow> str" where
  "get_slug_from_filename filename =
     (let base = py_replace (lit ''.md'') [] filename;
          parts = py_split HYPHEN (Some 3) base
      in if length parts \<ge> 4 then py_join (lit ''-'') (drop 3 parts) else base)"

section \<open>The page renderer\<close>

text \<open>
  The f-string of \<open>generate_html_file\<close>, one list element per line of the source,
  joined by newlines. The copyright sign of the footer is U+00A9. The parameter
  \<open>slug\<close> is part of the signature of the source function.
\<close>

definition generate_html_file :: "str \<Rightarrow> str \<Rightarrow> str \<Rightarrow> str \<Rightarrow> str" where
  \<open>generate_html_file title date body_html slug =
     py_join [NL] [
        lit ''<!DOCTYPE html>'',
        lit ''<html lang="en">'',
        lit ''<head>'',
        lit ''    <meta charset="UTF-8">'',
        lit ''    <meta name="viewport" content="width=device-width, initial-scale=1.0">'',
        lit ''    <title>'' @ title @ lit '' - Jack Wittmayer</title>'',
        lit ''    <link rel="stylesheet" href="../styles.css">'',
        lit ''</head>'',
        lit ''<body>'',
        lit ''    <div class="container">'',
        lit ''        <nav class="navbar">'',
        lit ''            <h1><a href="/">Jack Wittmayer</a></h1>'',
        lit ''            <ul>'',
        lit ''                <li><a href="/about.html">About</a></li>'',
        lit ''            </ul>'',
        lit ''        </nav>'',
        [],
        lit ''        <main>'',
        lit ''            <article class="blog-post">'',
        lit ''                <h1>'' @ title @ lit ''</h1>'',
        lit ''                <p class="post-date">'' @ date @ lit ''</p>'',
        [],
        lit ''                '' @ body_html,
        lit ''            </article>'',
        lit ''        </main>'',
        [],
        lit ''        <footer>'',
        lit ''            <p>'' @ [169] @ lit '' 2025 Jack Wittmayer</p>'',
        lit ''        </footer>'',
        lit ''    </div>'',
        lit ''</body>'',
        lit ''</html>'']\<close>

section \<open>The index serializer\<close>

text \<open>
  \<open>json.dumps(obj, indent=2)\<close> of the standard library, for the values the program
  passes to it: lists, dictionaries with string keys (in insertion order) and strings.
\<close>

datatype json = JString str | JList "json list" | JDict "(str \<times> json) list"

definition hex_digit :: "nat \<Rightarrow> nat" where
  "hex_digit d = lit ''0123456789abcdef'' ! (d mod 16)"

text \<open>The format \<open>{:04x}\<close> of a number below \<open>0x10000\<close>.\<close>

definition hex4 :: "nat \<Rightarrow> str" where
  "hex4 n = [hex_digit (n div 4096), hex_digit (n div 256), hex_digit (n div 16), hex_digit n]"

text \<open>
  One character of a JSON string with \<open>ensure_ascii\<close>: backslash and double quote
  are escaped, the control characters with a short escape get it, printable ASCII is
  kept, every other code point is written as \<open>u\<close> and four hexadecimal digits after
  a backslash, as a surrogate pair from U+10000 on.
\<close>

definition escape_char :: "nat \<Rightarrow> str" where
  "escape_char c =
     (if c = 92 then [92, 92]
      else if c = 34 then [92, 34]
      else if c = 8 then 92 # lit ''b''
      else if c = 12 then 92 # lit ''f''
      else if c = 10 then 92 # lit ''n''
      else if c = 13 then 92 # lit ''r''
      else if c = 9 then 92 # lit ''t''
      else if 32 \<le> c \<and> c \<le> 126 then [c]
      else if c < 65536 then 92 # lit ''u'' @ hex4 c
      else (let n = c - 65536;
                s1 = 55296 + (n div 1024) mod 1024;
                s2 = 56320 + n mod 1024
            in 92 # lit ''u'' @ hex4 s1 @ 92 # lit ''u'' @ hex4 s2))"

definition encode_basestring_ascii :: "str \<Rightarrow> str" where
  "encode_basestring_ascii s = 34 # concat (map escape_char s) @ [34]"

text \<open>A newline and the indentation of a nesting level.\<close>

definition newline_indent :: "nat \<Rightarrow> nat \<Rightarrow> str" where
  "newline_indent indent level = NL # replicate (indent * level) 32"

text \<open>
  The encoder with an indent: an empty list is \<open>[]\<close> and an empty dictionary
  \<open>{}\<close>; otherwise every item is on a line of its own, one level deeper, the items
  separated by a comma, a key and its value by a colon and a space.
\<close>

fun json_encode :: "nat \<Rightarrow> nat \<Rightarrow> json \<Rightarrow> str" where
  "json_encode indent level (JString s) = encode_basestring_ascii s"
| "json_encode indent level (JList xs) =
     (if xs = [] then lit ''[]''
      else lit ''['' @ newline_indent indent (level + 1)
        @ py_join (lit '','' @ newline_indent indent (level + 1))
            (map (json_encode indent (level + 1)) xs)
        @ newline_indent indent level @ lit '']'')"
| "json_encode indent level (JDict kvs) =
     (if kvs = [] then lit ''{}''
      else lit ''{'' @ newline_indent indent (level + 1)
        @ py_join (lit '','' @ newline_indent indent (level + 1))
            (map (\<lambda>kv. encode_basestring_ascii (fst kv) @ lit '': ''
                          @ json_encode indent (level + 1) (snd kv)) kvs)
        @ newline_indent indent level @ lit ''}'')"

definition json_dumps :: "json \<Rightarrow> nat \<Rightarrow> str" where
  "json_dumps obj indent = json_encode indent 0 obj"

section \<open>The build\<close>

text \<open>
  What a run does to the world, in order: the directory it creates, the files it
  writes (path and text) and the lines it prints.
\<close>

datatype event = Mkdir str | Write str str | Print str

text \<open>
  A post of the index is a Python dictionary with string values; the order of its
  keys is the order of insertion, which \<open>json.dumps\<close> follows.
\<close>

type_synonym post = "(str \<times> str) list"

definition post_json :: "post \<Rightarrow> json" where
  "post_json p = JDict (map (\<lambda>(k, v). (k, JString v)) p)"

text \<open>\<open>d.get(key, default)\<close>.\<close>

definition dict_get :: "(str \<rightharpoonup> str) \<Rightarrow> str \<Rightarrow> str \<Rightarrow> str" where
  "dict_get d k dflt = (case d k of None \<Rightarrow> dflt | Some v \<Rightarrow> v)"

text \<open>\<open>str(n)\<close> of a natural number: its decimal digits.\<close>

fun str_of_nat :: "nat \<Rightarrow> str" where
  "str_of_nat n = (if n < 10 then [48 + n] else str_of_nat (n div 10) @ [48 + n mod 10])"

text \<open>\<open>generate_posts_json\<close>: the index file and the line printed after it.\<close>

definition generate_posts_json :: "post list \<Rightarrow> event list" where
  "generate_posts_json posts_list =
     (let posts_json = json_dumps (JList (map post_json posts_list)) 2
      in [Write (lit ''posts.json'') posts_json,
          Print (10003 # lit '' Generated posts.json with posts metadata'')])"

text \<open>
  The source directory is the list of its entries, name and text, in the order the
  operating system lists them. \<open>glob('*.md')\<close> keeps the names that end in \<open>.md\<close>;
  \<open>sorted(..., reverse=True)\<close> reverses, sorts stably and reverses again. The paths
  compared all lie in the one directory, so they compare as their names do: by code
  point, lexicographically.
\<close>

definition glob_md :: "(str \<times> str) list \<Rightarrow> (str \<times> str) list" where
  "glob_md entries = filter (\<lambda>(name, content). suffix (lit ''.md'') name) entries"

definition sorted_reverse :: "(str \<times> str) list \<Rightarrow> (str \<times> str) list" where
  "sorted_reverse files = rev (sort_key fst (rev files))"

text \<open>
  The body of the loop of \<open>build_posts\<close> for one file: the events it adds and the
  post it appends. \<open>markdown\<close> is the renderer of the markdown library, a parameter
  of the model. An entry name holds no slash, so the name of the output file is
  the slug followed by \<open>.html\<close>.
\<close>

definition process_post ::
    "(str \<Rightarrow> str) \<Rightarrow> str \<times> str \<Rightarrow> py_error + (event list \<times> post)" where
  "process_post markdown md_file =
     (case md_file of (name, content) \<Rightarrow>
        (case parse_frontmatter content of
           Inl e \<Rightarrow> Inl e
         | Inr (metadata, body) \<Rightarrow>
             (let title = dict_get metadata (lit ''title'') (lit ''Untitled'');
                  date = dict_get metadata (lit ''date'') [];
                  description = dict_get metadata (lit ''description'') [];
                  body_html = markdown body;
                  slug = get_slug_from_filename name;
                  html_content = generate_html_file title date body_html slug;
                  output_name = slug @ lit ''.html''
              in Inr ([Write (lit ''posts/'' @ output_name) html_content,
                       Print (10003 # lit '' Built '' @ name @ lit '' -> '' @ output_name)],
                      [(lit ''title'', title), (lit ''date'', date), (lit ''slug'', slug),
                       (lit ''description'', description)]))))"

text \<open>The loop: an exception in one file ends the run.\<close>

fun build_loop ::
    "(str \<Rightarrow> str) \<Rightarrow> (str \<times> str) list \<Rightarrow> event list \<times> post list
       \<Rightarrow> py_error + (event list \<times> post list)" where
  "build_loop markdown [] st = Inr st"
| "build_loop markdown (md_file # rest) (events, posts_list) =
     (case process_post markdown md_file of
        Inl e \<Rightarrow> Inl e
      | Inr (evs, p) \<Rightarrow> build_loop markdown rest (events @ evs, posts_list @ [p]))"

text \<open>
  \<open>build_posts\<close>: the events of the run and the list it returns.
\<close>

definition build_posts ::
    "(str \<Rightarrow> str) \<Rightarrow> (str \<times> str) list \<Rightarrow> py_error + (event list \<times> post list)" where
  "build_posts markdown entries =
     (case build_loop markdown (sorted_reverse (glob_md entries)) ([Mkdir (lit ''posts'')], []) of
        Inl e \<Rightarrow> Inl e
      | Inr (events, posts_list) \<Rightarrow>
          (let events' = (if posts_list \<noteq> [] then events @ generate_posts_json posts_list
                          else events)
           in Inr (events' @ [Print (NL # 10003 # lit '' Successfully built ''
                                       @ str_of_nat (length posts_list) @ lit '' posts!'')],
                   posts_list)))"

section \<open>Example inputs\<close>

text \<open>Files on which the theorems below are evaluated.\<close>

definition plain_file :: str where
  "plain_file = lit ''Just some text''"

definition unterminated_file :: str where
  "unterminated_file = lit ''---'' @ [NL] @ lit ''title: Draft''"



definition two_titles_file :: str where
  "two_titles_file = lit ''---'' @ [NL] @ lit ''title: First'' @ [NL] @ lit ''date: 2025-01-01''
     @ [NL] @ lit ''title:  Second '' @ [NL] @ lit ''---'' @ [NL] @ lit ''Text''"

text \<open>
  The post of the specification's example, a stand-in for the markdown renderer that
  returns the rendering of that post's body, and two source directories.
\<close>

definition hello_file :: str where
  "hello_file = lit ''---'' @ [NL] @ lit ''title: Hello'' @ [NL] @ lit ''date: 2025-01-01''
     @ [NL] @ lit ''description: A test'' @ [NL] @ lit ''---'' @ [NL] @ lit ''Hello **world**''"

definition hello_markdown :: "str \<Rightarrow> str" where
  "hello_markdown body = lit ''<p>Hello <strong>world</strong></p>''"


definition no_posts :: "(str \<times> str) list" where
  "no_posts = [(lit ''notes.txt'', lit ''not a post'')]"

section \<open>Properties of the string methods\<close>

lemma py_split_not_Nil: "py_split sep lim s \<noteq> []"
  by (induction s arbitrary: lim) (simp_all add: Let_def)

lemma py_split_no_sep: "sep \<notin> set s \<Longrightarrow> py_split sep lim s = [s]"
  by (induction s arbitrary: lim) (simp_all add: Let_def)

lemma py_split_limit_0: "py_split sep (Some 0) s = [s]"
  by (induction s) (simp_all add: Let_def)

lemma py_split_append:
  "py_split sep None (a @ sep # b) = py_split sep None a @ py_split sep None b"
proof (induction a)
  case Nil
  show ?case by simp
next
  case (Cons c a)
  have ne: "py_split sep None a \<noteq> []" by (rule py_split_not_Nil)
  show ?case using Cons ne by (simp add: Let_def)
qed

lemma py_split_parts_no_sep: "p \<in> set (py_split sep None s) \<Longrightarrow> sep \<notin> set p"
proof (induction s arbitrary: p)
  case Nil
  then show ?case by simp
next
  case (Cons c s)
  have ne: "py_split sep None s \<noteq> []" by (rule py_split_not_Nil)
  show ?case
  proof (cases "c = sep")
    case True
    with Cons show ?thesis by auto
  next
    case False
    from Cons.prems False have "p = c # hd (py_split sep None s) \<or> p \<in> set (tl (py_split sep None s))"
      by (simp add: Let_def)
    then show ?thesis
    proof
      assume "p = c # hd (py_split sep None s)"
      moreover have "sep \<notin> set (hd (py_split sep None s))"
        using Cons.IH ne by simp
      ultimately show ?thesis using False by simp
    next
      assume "p \<in> set (tl (py_split sep None s))"
      then have "p \<in> set (py_split sep None s)" using ne by (simp add: list.set_sel(2))
      then show ?thesis by (rule Cons.IH)
    qed
  qed
qed

lemma py_join_Cons: "py_join sep (p # ps) = p @ concat (map (\<lambda>x. sep @ x) ps)"
  by (induction ps arbitrary: p) simp_all

lemma py_join_split: "py_join [sep] (py_split sep None s) = s"
proof (induction s)
  case Nil
  show ?case by simp
next
  case (Cons c s)
  obtain p ps where ps: "py_split sep None s = p # ps"
    using py_split_not_Nil by (cases "py_split sep None s") auto
  show ?case using Cons ps by (simp add: Let_def py_join_Cons)
qed

lemma py_split_one:
  "sep \<in> set s \<Longrightarrow>
   py_split sep (Some 1) s = [takeWhile (\<lambda>c. c \<noteq> sep) s, tl (dropWhile (\<lambda>c. c \<noteq> sep) s)]"
  by (induction s) (auto simp add: Let_def py_split_limit_0)

lemma lazy_until_sound: "lazy_until pat s = Some (g, r) \<Longrightarrow> s = g @ pat @ r"
proof (induction s arbitrary: g)
  case Nil
  then show ?case by (simp split: if_splits)
next
  case (Cons c s)
  show ?case
  proof (cases "prefix pat (c # s)")
    case True
    with Cons.prems show ?thesis by (auto simp: prefix_def)
  next
    case False
    with Cons.prems obtain g' where "lazy_until pat s = Some (g', r)" and "g = c # g'"
      by auto
    with Cons.IH show ?thesis by simp
  qed
qed

lemma lazy_until_skip:
  "n \<notin> set l \<Longrightarrow>
   lazy_until (n # p) (l @ t) = map_option (\<lambda>(g, r). (l @ g, r)) (lazy_until (n # p) t)"
proof (induction l)
  case Nil
  show ?case by (simp add: option.map_ident split_def)
next
  case (Cons c l)
  then show ?case by (simp add: option.map_comp comp_def split_def)
qed

lemma prefix_line:
  "n \<notin> set x \<Longrightarrow> n \<notin> set d \<Longrightarrow> prefix (d @ [n]) (x @ n # t) \<longleftrightarrow> d = x"
proof (induction d arbitrary: x)
  case Nil
  then show ?case by (cases x) auto
next
  case (Cons a d)
  then show ?case by (cases x) auto
qed

lemma lazy_until_lines:
  assumes "\<forall>x \<in> set ls. n \<notin> set x" and "n \<notin> set d" and "d \<notin> set ls"
  shows "lazy_until (n # d @ [n]) (concat (map (\<lambda>x. n # x) ls) @ n # d @ n # t)
         = Some (concat (map (\<lambda>x. n # x) ls), t)"
  using assms
proof (induction ls)
  case Nil
  show ?case by simp
next
  case (Cons x ls)
  let ?rest = "concat (map (\<lambda>x. n # x) ls) @ n # d @ n # t"
  have "?rest = n # tl ?rest" by (cases ls) auto
  then obtain t' where t': "?rest = n # t'" by blast
  have np: "\<not> prefix (d @ [n]) (x @ ?rest)"
    using Cons.prems prefix_line[of n x d t'] t' by auto
  have "lazy_until (n # d @ [n]) (x @ ?rest) = map_option (\<lambda>(g, r). (x @ g, r)) (lazy_until (n # d @ [n]) ?rest)"
    using Cons.prems by (intro lazy_until_skip) simp
  also have "\<dots> = Some (x @ concat (map (\<lambda>x. n # x) ls), t)"
    using Cons by simp
  finally show ?case using np by simp
qed

section \<open>Properties of the frontmatter parser\<close>

text \<open>What one line of the block does to the metadata.\<close>

lemma parse_lines_fold:
  "parse_lines ls m =
     Inr (fold (\<lambda>ln m. if COLON \<in> set ln
                        then m(py_strip (takeWhile (\<lambda>c. c \<noteq> COLON) ln)
                                 \<mapsto> py_strip (tl (dropWhile (\<lambda>c. c \<noteq> COLON) ln)))
                        else m) ls m)"
  by (induction ls arbitrary: m) (simp_all add: py_in_def py_split_one del: One_nat_def)

lemma lit_dashes_no_NL: "NL \<notin> set (lit ''---'')"
  by (simp add: lit_def NL_def)

lemma length_lit [simp]: "length (lit s) = length s"
  by (simp add: lit_def)

lemma re_match_frontmatter_lines:
  assumes "py_split NL None content = lit ''---'' # l # ls @ lit ''---'' # after"
    and "lit ''---'' \<notin> set ls" and "after \<noteq> []"
  shows "re_match_frontmatter content = Some (py_join [NL] (l # ls), py_join [NL] after)"
proof -
  obtain r rs where after: "after = r # rs" using assms(3) by (cases after) auto
  have nl: "\<forall>x \<in> set (l # ls). NL \<notin> set x"
    using py_split_parts_no_sep[of _ NL content] assms(1) by auto
  have "content = py_join [NL] (py_split NL None content)"
    by (simp add: py_join_split)
  also have "\<dots> = (lit ''---'' @ [NL]) @ l @ concat (map (\<lambda>x. NL # x) ls) @ NL # lit ''---'' @ NL # py_join [NL] after"
    unfolding assms(1) by (simp add: py_join_Cons after)
  finally have c: "content = (lit ''---'' @ [NL]) @ l @ concat (map (\<lambda>x. NL # x) ls) @ NL # lit ''---'' @ NL # py_join [NL] after" .
  have d4: "drop 4 content = l @ concat (map (\<lambda>x. NL # x) ls) @ NL # lit ''---'' @ NL # py_join [NL] after"
    by (subst c) simp
  have pre: "prefix (lit ''---'' @ [NL]) content"
    by (subst c) (rule prefixI, rule refl)
  have "lazy_until (NL # lit ''---'' @ [NL]) (drop 4 content)
        = map_option (\<lambda>(g, r). (l @ g, r))
            (lazy_until (NL # lit ''---'' @ [NL]) (concat (map (\<lambda>x. NL # x) ls) @ NL # lit ''---'' @ NL # py_join [NL] after))"
    unfolding d4 using nl by (intro lazy_until_skip) simp
  also have "\<dots> = Some (l @ concat (map (\<lambda>x. NL # x) ls), py_join [NL] after)"
    using nl assms(2) lit_dashes_no_NL by (simp add: lazy_until_lines)
  finally show ?thesis using pre by (simp add: re_match_frontmatter_def py_join_Cons)
qed

lemma py_split_join:
  "\<forall>p \<in> set (p0 # ps). sep \<notin> set p \<Longrightarrow> py_split sep None (py_join [sep] (p0 # ps)) = p0 # ps"
proof (induction ps arbitrary: p0)
  case Nil
  then show ?case by (simp add: py_split_no_sep)
next
  case (Cons q ps)
  have "py_join [sep] (p0 # q # ps) = p0 @ sep # py_join [sep] (q # ps)" by simp
  then show ?case using Cons by (simp only: py_split_append) (simp add: py_split_no_sep)
qed

lemma re_match_frontmatter_sound:
  assumes "re_match_frontmatter content = Some (g, r)"
  shows "py_split NL None content = lit ''---'' # py_split NL None g @ lit ''---'' # py_split NL None r"
proof -
  from assms have pre: "prefix (lit ''---'' @ [NL]) content"
    and lu: "lazy_until (NL # lit ''---'' @ [NL]) (drop 4 content) = Some (g, r)"
    by (auto simp: re_match_frontmatter_def split: if_splits)
  from pre obtain t where t: "content = (lit ''---'' @ [NL]) @ t" by (auto simp: prefix_def)
  then have "drop 4 content = t" by simp
  with lazy_until_sound[OF lu] have "t = g @ (NL # lit ''---'' @ [NL]) @ r" by simp
  with t have "content = lit ''---'' @ NL # (g @ NL # lit ''---'' @ NL # r)" by simp
  then show ?thesis
    by (simp only: py_split_append) (simp add: py_split_no_sep lit_dashes_no_NL)
qed



lemma fold_line_untouched:
  "\<forall>ln \<in> set ls. P ln \<longrightarrow> k ln \<noteq> key \<Longrightarrow>
     fold (\<lambda>ln m. if P ln then m(k ln \<mapsto> v ln) else m) ls m0 key = m0 key"
  by (induction ls arbitrary: m0) auto

lemma fold_line_last:
  "P ln \<Longrightarrow> \<forall>ln' \<in> set post. P ln' \<longrightarrow> k ln' \<noteq> k ln \<Longrightarrow>
     fold (\<lambda>ln m. if P ln then m(k ln \<mapsto> v ln) else m) (pre @ ln # post) m0 (k ln) = Some (v ln)"
  by (simp add: fold_line_untouched)

lemma parse_frontmatter_matched:
  assumes "py_split NL None content = lit ''---'' # blk @ lit ''---'' # after"
    and "blk \<noteq> []" and "lit ''---'' \<notin> set (tl blk)" and "after \<noteq> []"
  shows "parse_frontmatter content =
     Inr (fold (\<lambda>ln m. if COLON \<in> set ln
                        then m(py_strip (takeWhile (\<lambda>c. c \<noteq> COLON) ln)
                                 \<mapsto> py_strip (tl (dropWhile (\<lambda>c. c \<noteq> COLON) ln)))
                        else m) blk Map.empty,
          py_join [NL] after)"
proof -
  obtain l ls where blk: "blk = l # ls" using assms(2) by (cases blk) auto
  have nl: "\<forall>x \<in> set (l # ls). NL \<notin> set x"
    using py_split_parts_no_sep[of _ NL content] assms(1) blk by auto
  have m: "re_match_frontmatter content = Some (py_join [NL] (l # ls), py_join [NL] after)"
    using assms blk by (intro re_match_frontmatter_lines) auto
  have "prefix (lit ''---'' @ [NL]) content"
    using m by (auto simp: re_match_frontmatter_def split: if_splits)
  then have sw: "startswith content (lit ''---'')"
    by (auto simp: startswith_def prefix_def)
  have "py_split NL None (py_join [NL] (l # ls)) = l # ls"
    using nl by (rule py_split_join)
  with m sw show ?thesis
    by (simp add: parse_frontmatter_def parse_lines_fold blk)
qed

lemma parse_frontmatter_never_raises: "\<exists>metadata body. parse_frontmatter content = Inr (metadata, body)"
  by (simp add: parse_frontmatter_def parse_lines_fold split: option.split prod.split)


lemma two_titles_lines:
  "py_split NL None two_titles_file
     = lit ''---'' # ([lit ''title: First'', lit ''date: 2025-01-01''] @ lit ''title:  Second '' # []) @ lit ''---'' # [lit ''Text'']"
  by (simp add: two_titles_file_def lit_def NL_def Let_def)

subsection \<open>A block between two delimiter lines\<close>




subsection \<open>No frontmatter\<close>

text \<open>
  Claim C5. When the text does not start with \<open>---\<close>, or its first line is not
  the delimiter \<open>---\<close>, or no later line is \<open>---\<close>, then \<open>parse_frontmatter\<close>
  returns the empty metadata and the text unchanged as the body; it returns, it does
  not raise.
\<close>

theorem parse_frontmatter_identity:
  assumes "\<not> startswith content (lit ''---'')
         \<or> hd (py_split NL None content) \<noteq> lit ''---''
         \<or> lit ''---'' \<notin> set (tl (py_split NL None content))"
  shows "parse_frontmatter content = Inr (Map.empty, content)"
proof (cases "re_match_frontmatter content")
  case None
  then show ?thesis by (simp add: parse_frontmatter_def)
next
  case (Some gr)
  obtain g r where "gr = (g, r)" by (cases gr)
  with Some have split: "py_split NL None content
      = lit ''---'' # py_split NL None g @ lit ''---'' # py_split NL None r"
    by (simp add: re_match_frontmatter_sound)
  from Some have "prefix (lit ''---'' @ [NL]) content"
    by (auto simp: re_match_frontmatter_def split: if_splits)
  then have "startswith content (lit ''---'')"
    by (auto simp: startswith_def prefix_def)
  with assms split show ?thesis by auto
qed

theorem parse_frontmatter_identity_witness:
  "\<not> startswith plain_file (lit ''---'')
   \<and> parse_frontmatter plain_file = Inr (Map.empty, plain_file)
   \<and> lit ''---'' \<notin> set (tl (py_split NL None unterminated_file))
   \<and> parse_frontmatter unterminated_file = Inr (Map.empty, unterminated_file)"
proof -
  have a: "\<not> startswith plain_file (lit ''---'')"
    by (simp add: plain_file_def startswith_def lit_def)
  have b: "lit ''---'' \<notin> set (tl (py_split NL None unterminated_file))"
    by (simp add: unterminated_file_def lit_def NL_def Let_def)
  show ?thesis
    using a b parse_frontmatter_identity[of plain_file] parse_frontmatter_identity[of unterminated_file]
    by simp
qed

subsection \<open>A key on several lines\<close>

text \<open>
  Claim C10. In a block as in C1, a line with a colon whose key no later line of the
  block repeats gives the key its value: of the lines with one key the last one wins.
\<close>

theorem parse_frontmatter_last_line_wins:
  assumes "py_split NL None content = lit ''---'' # blk @ lit ''---'' # after"
    and "blk \<noteq> []" and "lit ''---'' \<notin> set (tl blk)" and "after \<noteq> []"
    and "blk = pre @ ln # post" and "COLON \<in> set ln"
    and "\<forall>ln' \<in> set post. COLON \<in> set ln' \<longrightarrow>
           py_strip (takeWhile (\<lambda>c. c \<noteq> COLON) ln') \<noteq> py_strip (takeWhile (\<lambda>c. c \<noteq> COLON) ln)"
  shows "\<exists>metadata body.
      parse_frontmatter content = Inr (metadata, body)
    \<and> metadata (py_strip (takeWhile (\<lambda>c. c \<noteq> COLON) ln))
        = Some (py_strip (tl (dropWhile (\<lambda>c. c \<noteq> COLON) ln)))"
proof -
  have "parse_frontmatter content =
     Inr (fold (\<lambda>ln m. if COLON \<in> set ln
                        then m(py_strip (takeWhile (\<lambda>c. c \<noteq> COLON) ln)
                                 \<mapsto> py_strip (tl (dropWhile (\<lambda>c. c \<noteq> COLON) ln)))
                        else m) (pre @ ln # post) Map.empty,
          py_join [NL] after)"
    using assms(1-4) unfolding assms(5) by (rule parse_frontmatter_matched)
  moreover have "fold (\<lambda>ln m. if COLON \<in> set ln
                        then m(py_strip (takeWhile (\<lambda>c. c \<noteq> COLON) ln)
                                 \<mapsto> py_strip (tl (dropWhile (\<lambda>c. c \<noteq> COLON) ln)))
                        else m) (pre @ ln # post) Map.empty
            (py_strip (takeWhile (\<lambda>c. c \<noteq> COLON) ln))
          = Some (py_strip (tl (dropWhile (\<lambda>c. c \<noteq> COLON) ln)))"
    using assms(6,7)
    by (intro fold_line_last[where P = "\<lambda>ln. COLON \<in> set ln"
          and k = "\<lambda>ln. py_strip (takeWhile (\<lambda>c. c \<noteq> COLON) ln)"]) auto
  ultimately show ?thesis by blast
qed

theorem parse_frontmatter_last_line_wins_witness:
  "py_split NL None two_titles_file
     = lit ''---'' # ([lit ''title: First'', lit ''date: 2025-01-01''] @ lit ''title:  Second '' # []) @ lit ''---'' # [lit ''Text'']
   \<and> COLON \<in> set (lit ''title:  Second '')
   \<and> (\<exists>metadata body. parse_frontmatter two_titles_file = Inr (metadata, body)
         \<and> metadata (lit ''title'') = Some (lit ''Second''))"
proof -
  have k: "py_strip (takeWhile (\<lambda>c. c \<noteq> COLON) (lit ''title:  Second '')) = lit ''title''"
    by (simp add: py_strip_def lit_def COLON_def isspace_def)
  have v: "py_strip (tl (dropWhile (\<lambda>c. c \<noteq> COLON) (lit ''title:  Second ''))) = lit ''Second''"
    by (simp add: py_strip_def lit_def COLON_def isspace_def)
  have c: "COLON \<in> set (lit ''title:  Second '')" by (simp add: lit_def COLON_def)
  have ne: "lit ''---'' \<notin> set (tl ([lit ''title: First'', lit ''date: 2025-01-01''] @ lit ''title:  Second '' # []))"
    by (simp add: lit_def)
  from parse_frontmatter_last_line_wins[OF two_titles_lines _ ne _ refl c]
  have "\<exists>metadata body. parse_frontmatter two_titles_file = Inr (metadata, body)
      \<and> metadata (py_strip (takeWhile (\<lambda>c. c \<noteq> COLON) (lit ''title:  Second '')))
          = Some (py_strip (tl (dropWhile (\<lambda>c. c \<noteq> COLON) (lit ''title:  Second ''))))"
    by simp
  with k v c two_titles_lines show ?thesis by simp
qed

section \<open>Properties of the slug\<close>

text \<open>The two file names of the specification.\<close>

lemma get_slug_from_filename_examples:
  "get_slug_from_filename (lit ''2025-11-05-first-post.md'') = lit ''first-post''"
  "get_slug_from_filename (lit ''no-date-prefix.md'') = lit ''no-date-prefix''"
  by (simp_all add: get_slug_from_filename_def py_replace_def lit_def HYPHEN_def Let_def)

text \<open>
  Claim C2. The source removes the extension with \<open>filename.replace('.md', '')\<close>,
  which removes every occurrence of \<open>.md\<close> and not only the one at the end. For the
  file name \<open>2025-11-05-intro.md-files.md\<close> the stem is \<open>2025-11-05-intro.md-files\<close> and
  the claim gives the slug \<open>intro.md-files\<close>; the code returns \<open>intro-files\<close>.
\<close>

theorem get_slug_from_filename_inner_md:
  "get_slug_from_filename (lit ''2025-11-05-intro.md-files.md'') = lit ''intro-files''"
  by (simp add: get_slug_from_filename_def py_replace_def lit_def HYPHEN_def Let_def)

section \<open>Properties of the page renderer\<close>

lemma sublist_set: "sublist xs ys \<Longrightarrow> set xs \<subseteq> set ys"
  by (auto simp: sublist_def)

text \<open>
  Claim C6, as the code has it. The page is a fixed template with four holes: the
  title twice, then the date, then the body. The five pieces of text around the holes
  are the same for all arguments; the page starts with the document type and ends with
  the closing \<open>html\<close> tag. The renderer is a total function of its arguments, so it
  returns for all of them. The slug fills no hole.
\<close>

theorem generate_html_file_template:
  \<open>\<exists>head mid1 mid2 mid3 tail.
     prefix (lit ''<!DOCTYPE html>'') head \<and> suffix (lit ''</html>'') tail \<and>
     (\<forall>title date body_html slug.
        generate_html_file title date body_html slug
          = head @ title @ mid1 @ title @ mid2 @ date @ mid3 @ body_html @ tail)\<close>
proof -
  define head where \<open>head = py_join [NL] [
        lit ''<!DOCTYPE html>'',
        lit ''<html lang="en">'',
        lit ''<head>'',
        lit ''    <meta charset="UTF-8">'',
        lit ''    <meta name="viewport" content="width=device-width, initial-scale=1.0">'',
        lit ''    <title>'']\<close>
  define mid1 where \<open>mid1 = py_join [NL] [
        lit '' - Jack Wittmayer</title>'',
        lit ''    <link rel="stylesheet" href="../styles.css">'',
        lit ''</head>'',
        lit ''<body>'',
        lit ''    <div class="container">'',
        lit ''        <nav class="navbar">'',
        lit ''            <h1><a href="/">Jack Wittmayer</a></h1>'',
        lit ''            <ul>'',
        lit ''                <li><a href="/about.html">About</a></li>'',
        lit ''            </ul>'',
        lit ''        </nav>'',
        [],
        lit ''        <main>'',
        lit ''            <article class="blog-post">'',
        lit ''                <h1>'']\<close>
  define mid2 where \<open>mid2 = py_join [NL] [lit ''</h1>'', lit ''                <p class="post-date">'']\<close>
  define mid3 where \<open>mid3 = py_join [NL] [lit ''</p>'', [], lit ''                '']\<close>
  define tail where \<open>tail = py_join [NL] [
        [],
        lit ''            </article>'',
        lit ''        </main>'',
        [],
        lit ''        <footer>'',
        lit ''            <p>'' @ [169] @ lit '' 2025 Jack Wittmayer</p>'',
        lit ''        </footer>'',
        lit ''    </div>'',
        lit ''</body>'',
        lit ''</html>'']\<close>
  have "prefix (lit ''<!DOCTYPE html>'') head"
    by (simp add: head_def)
  moreover have "suffix (lit ''</html>'') tail"
    unfolding tail_def py_join.simps by (rule suffixI) simp
  moreover have "generate_html_file title date body_html slug
          = head @ title @ mid1 @ title @ mid2 @ date @ mid3 @ body_html @ tail"
    for title date body_html slug
    by (simp add: generate_html_file_def head_def mid1_def mid2_def mid3_def tail_def)
  ultimately show ?thesis by blast
qed

text \<open>
  The claim as it is written has the slug interpolated too. The page for the slug
  \<open>quiz\<close> does not hold the letter \<open>q\<close>, so the slug is nowhere in it.
\<close>

theorem generate_html_file_slug_counterexample:
  "\<not> sublist (lit ''quiz'')
      (generate_html_file (lit ''Hello'') (lit ''2025-01-01'') (lit ''<p>Hi</p>'') (lit ''quiz''))"
proof
  assume "sublist (lit ''quiz'')
      (generate_html_file (lit ''Hello'') (lit ''2025-01-01'') (lit ''<p>Hi</p>'') (lit ''quiz''))"
  then have "set (lit ''quiz'') \<subseteq> set (generate_html_file (lit ''Hello'') (lit ''2025-01-01'') (lit ''<p>Hi</p>'') (lit ''quiz''))"
    by (rule sublist_set)
  then have "113 \<in> set (generate_html_file (lit ''Hello'') (lit ''2025-01-01'') (lit ''<p>Hi</p>'') (lit ''quiz''))"
    by (auto simp: lit_def)
  then show False
    by (simp add: generate_html_file_def lit_def NL_def)
qed

text \<open>
  Claim C9. The page does not depend on the slug: the same title, date and body give
  the same page for any two slugs.
\<close>

theorem generate_html_file_ignores_slug:
  "generate_html_file title date body_html slug = generate_html_file title date body_html slug'"
  by (simp add: generate_html_file_def)

section \<open>Properties of the build\<close>

subsection \<open>The loop never raises\<close>

lemma process_post_parsed:
  "parse_frontmatter content = Inr (metadata, body) \<Longrightarrow>
   process_post markdown (name, content) =
     Inr ([Write (lit ''posts/'' @ get_slug_from_filename name @ lit ''.html'')
             (generate_html_file (dict_get metadata (lit ''title'') (lit ''Untitled''))
                (dict_get metadata (lit ''date'') []) (markdown body) (get_slug_from_filename name)),
           Print (10003 # lit '' Built '' @ name @ lit '' -> '' @ get_slug_from_filename name @ lit ''.html'')],
          [(lit ''title'', dict_get metadata (lit ''title'') (lit ''Untitled'')),
           (lit ''date'', dict_get metadata (lit ''date'') []),
           (lit ''slug'', get_slug_from_filename name),
           (lit ''description'', dict_get metadata (lit ''description'') [])])"
  by (simp add: process_post_def Let_def)

lemma process_post_never_raises: "\<exists>evs p. process_post markdown f = Inr (evs, p)"
proof -
  obtain name content where f: "f = (name, content)" by (cases f)
  obtain metadata body where "parse_frontmatter content = Inr (metadata, body)"
    using parse_frontmatter_never_raises by blast
  then show ?thesis unfolding f by (simp add: process_post_parsed)
qed

lemma build_loop_result:
  "build_loop markdown fs (events, posts) =
     Inr (events @ concat (map (\<lambda>f. fst (projr (process_post markdown f))) fs),
          posts @ map (\<lambda>f. snd (projr (process_post markdown f))) fs)"
proof (induction fs arbitrary: events posts)
  case Nil
  show ?case by simp
next
  case (Cons f fs)
  obtain evs p where "process_post markdown f = Inr (evs, p)"
    using process_post_never_raises by blast
  then show ?case using Cons by simp
qed

lemma build_posts_result:
  "build_posts markdown entries =
     (let files = sorted_reverse (glob_md entries);
          posts = map (\<lambda>f. snd (projr (process_post markdown f))) files
      in Inr (Mkdir (lit ''posts'') # concat (map (\<lambda>f. fst (projr (process_post markdown f))) files)
              @ (if posts \<noteq> [] then generate_posts_json posts else [])
              @ [Print (NL # 10003 # lit '' Successfully built '' @ str_of_nat (length posts) @ lit '' posts!'')],
              posts))"
  by (simp add: build_posts_def build_loop_result Let_def)


subsection \<open>The order of the files\<close>

lemma set_glob_md: "set (glob_md entries) = {f \<in> set entries. suffix (lit ''.md'') (fst f)}"
  by (auto simp: glob_md_def)

lemma set_sorted_reverse: "set (sorted_reverse files) = set files"
  by (simp add: sorted_reverse_def)



lemma sorted_reverse_single: "sorted_reverse [f] = [f]"
  by (simp add: sorted_reverse_def)

subsection \<open>The events of a run\<close>






subsection \<open>The layout of the index\<close>


subsection \<open>The index file\<close>



subsection \<open>No markdown files\<close>

text \<open>
  Claim C4. Every run returns. It writes \<open>posts.json\<close> if and only if the list of
  posts it collected is not empty, which is so if and only if some entry has a name
  ending in \<open>.md\<close>. When no entry has such a name, the run writes no file at all: it
  creates the output directory and prints the summary line, and nothing else.
\<close>

theorem build_posts_index_iff_posts:
  "\<exists>events posts.
      build_posts markdown entries = Inr (events, posts)
    \<and> ((\<exists>c. Write (lit ''posts.json'') c \<in> set events) \<longleftrightarrow> posts \<noteq> [])
    \<and> (posts \<noteq> [] \<longleftrightarrow> (\<exists>name content. (name, content) \<in> set entries \<and> suffix (lit ''.md'') name))
    \<and> ((\<forall>name content. (name, content) \<in> set entries \<longrightarrow> \<not> suffix (lit ''.md'') name) \<longrightarrow>
          posts = [] \<and> (\<forall>path c. Write path c \<notin> set events)
          \<and> events = [Mkdir (lit ''posts''),
                       Print (NL # 10003 # lit '' Successfully built 0 posts!'')])"
proof -
  let ?files = "sorted_reverse (glob_md entries)"
  let ?posts = "map (\<lambda>f. snd (projr (process_post markdown f))) ?files"
  let ?loop = "concat (map (\<lambda>f. fst (projr (process_post markdown f))) ?files)"
  let ?events = "Mkdir (lit ''posts'') # ?loop
              @ (if ?posts \<noteq> [] then generate_posts_json ?posts else [])
              @ [Print (NL # 10003 # lit '' Successfully built '' @ str_of_nat (length ?posts) @ lit '' posts!'')]"
  have res: "build_posts markdown entries = Inr (?events, ?posts)"
    by (simp add: build_posts_result Let_def)
  have files: "?files \<noteq> [] \<longleftrightarrow> (\<exists>name content. (name, content) \<in> set entries \<and> suffix (lit ''.md'') name)"
  proof -
    have "?files \<noteq> [] \<longleftrightarrow> set ?files \<noteq> {}" by simp
    also have "\<dots> \<longleftrightarrow> (\<exists>f. f \<in> set entries \<and> suffix (lit ''.md'') (fst f))"
      by (auto simp: set_sorted_reverse set_glob_md)
    also have "\<dots> \<longleftrightarrow> (\<exists>name content. (name, content) \<in> set entries \<and> suffix (lit ''.md'') name)"
      by auto
    finally show ?thesis .
  qed
  have a: "(\<exists>c. Write (lit ''posts.json'') c \<in> set ?events) \<longleftrightarrow> ?posts \<noteq> []"
  proof
    assume "\<exists>c. Write (lit ''posts.json'') c \<in> set ?events"
    then obtain c where c: "Write (lit ''posts.json'') c \<in> set ?events" ..
    show "?posts \<noteq> []"
    proof
      assume "?posts = []"
      then have "?files = []" by simp
      with c show False by simp
    qed
  next
    assume "?posts \<noteq> []"
    then show "\<exists>c. Write (lit ''posts.json'') c \<in> set ?events"
      by (auto simp: generate_posts_json_def Let_def)
  qed
  have b: "?posts \<noteq> [] \<longleftrightarrow> (\<exists>name content. (name, content) \<in> set entries \<and> suffix (lit ''.md'') name)"
    using files by simp
  have c: "(\<forall>name content. (name, content) \<in> set entries \<longrightarrow> \<not> suffix (lit ''.md'') name) \<longrightarrow>
          ?posts = [] \<and> (\<forall>path c. Write path c \<notin> set ?events)
          \<and> ?events = [Mkdir (lit ''posts''),
                       Print (NL # 10003 # lit '' Successfully built 0 posts!'')]"
  proof
    assume "\<forall>name content. (name, content) \<in> set entries \<longrightarrow> \<not> suffix (lit ''.md'') name"
    with files have "?files = []" by blast
    then show "?posts = [] \<and> (\<forall>path c. Write path c \<notin> set ?events)
          \<and> ?events = [Mkdir (lit ''posts''),
                       Print (NL # 10003 # lit '' Successfully built 0 posts!'')]"
      by (simp add: lit_def)
  qed
  from res a b c show ?thesis by blast
qed

theorem build_posts_index_iff_posts_witness:
  "\<not> (\<exists>name content. (name, content) \<in> set no_posts \<and> suffix (lit ''.md'') name)
   \<and> build_posts hello_markdown no_posts
       = Inr ([Mkdir (lit ''posts''), Print (NL # 10003 # lit '' Successfully built 0 posts!'')], [])"
proof -
  have n: "\<not> (\<exists>name content. (name, content) \<in> set no_posts \<and> suffix (lit ''.md'') name)"
    by (simp add: no_posts_def suffix_to_prefix lit_def)
  then have h: "\<forall>name content. (name, content) \<in> set no_posts \<longrightarrow> \<not> suffix (lit ''.md'') name"
    by blast
  from build_posts_index_iff_posts[of hello_markdown no_posts]
  obtain events posts where
    r: "build_posts hello_markdown no_posts = Inr (events, posts)"
    and e: "(\<forall>name content. (name, content) \<in> set no_posts \<longrightarrow> \<not> suffix (lit ''.md'') name) \<longrightarrow>
          posts = [] \<and> (\<forall>path c. Write path c \<notin> set events)
          \<and> events = [Mkdir (lit ''posts''),
                       Print (NL # 10003 # lit '' Successfully built 0 posts!'')]"
    by blast
  from e h have "posts = []"
    "events = [Mkdir (lit ''posts''), Print (NL # 10003 # lit '' Successfully built 0 posts!'')]"
    by blast+
  with r n show ?thesis by (intro conjI) simp_all
qed

subsection \<open>The example post\<close>

lemma sublist_mid: "sublist x (a @ x @ b)"
  by (auto simp: sublist_def)

lemma generate_html_file_parts:
  \<open>\<exists>A B C D E F G. \<forall>title date body_html slug.
     generate_html_file title date body_html slug =
       A @ lit ''<title>'' @ title @ lit '' - Jack Wittmayer</title>''
       @ B @ lit ''<article class="blog-post">''
       @ C @ lit ''<h1>'' @ title @ lit ''</h1>''
       @ D @ lit ''<p class="post-date">'' @ date @ lit ''</p>''
       @ E @ body_html @ F @ lit ''</article>'' @ G\<close>
proof -
  define A where \<open>A = py_join [NL] [
        lit ''<!DOCTYPE html>'',
        lit ''<html lang="en">'',
        lit ''<head>'',
        lit ''    <meta charset="UTF-8">'',
        lit ''    <meta name="viewport" content="width=device-width, initial-scale=1.0">'',
        lit ''    '']\<close>
  define B where \<open>B = py_join [NL] [
        [],
        lit ''    <link rel="stylesheet" href="../styles.css">'',
        lit ''</head>'',
        lit ''<body>'',
        lit ''    <div class="container">'',
        lit ''        <nav class="navbar">'',
        lit ''            <h1><a href="/">Jack Wittmayer</a></h1>'',
        lit ''            <ul>'',
        lit ''                <li><a href="/about.html">About</a></li>'',
        lit ''            </ul>'',
        lit ''        </nav>'',
        [],
        lit ''        <main>'',
        lit ''            '']\<close>
  define C where \<open>C = py_join [NL] [[], lit ''                '']\<close>
  define D where \<open>D = py_join [NL] [[], lit ''                '']\<close>
  define E where \<open>E = py_join [NL] [[], [], lit ''                '']\<close>
  define F where \<open>F = py_join [NL] [[], lit ''            '']\<close>
  define G where \<open>G = py_join [NL] [
        [],
        lit ''        </main>'',
        [],
        lit ''        <footer>'',
        lit ''            <p>'' @ [169] @ lit '' 2025 Jack Wittmayer</p>'',
        lit ''        </footer>'',
        lit ''    </div>'',
        lit ''</body>'',
        lit ''</html>'']\<close>
  have "generate_html_file title date body_html slug =
       A @ lit ''<title>'' @ title @ lit '' - Jack Wittmayer</title>''
       @ B @ lit ''<article class=\"blog-post\">''
       @ C @ lit ''<h1>'' @ title @ lit ''</h1>''
       @ D @ lit ''<p class=\"post-date\">'' @ date @ lit ''</p>''
       @ E @ body_html @ F @ lit ''</article>'' @ G" for title date body_html slug
    by (simp add: generate_html_file_def A_def B_def C_def D_def E_def F_def G_def lit_def)
  then show ?thesis by blast
qed

lemma hello_file_parsed:
  "\<exists>metadata. parse_frontmatter hello_file = Inr (metadata, lit ''Hello **world**'')
     \<and> metadata (lit ''title'') = Some (lit ''Hello'')
     \<and> metadata (lit ''date'') = Some (lit ''2025-01-01'')
     \<and> metadata (lit ''description'') = Some (lit ''A test'')"
  by (simp add: hello_file_def parse_frontmatter_def re_match_frontmatter_def startswith_def
      py_in_def py_strip_def isspace_def lit_def NL_def COLON_def Let_def)

text \<open>
  Claim C7. The source directory holds one file, with any name ending in \<open>.md\<close>,
  whose frontmatter sets title to \<open>Hello\<close>, date to \<open>2025-01-01\<close> and description to
  \<open>A test\<close> and whose body is \<open>Hello **world**\<close>. The markdown renderer belongs to a
  library outside the program; all that is assumed of it is that its rendering of that
  body holds \<open>world\<close> in a \<open>strong\<close> element. Then the page written for the post holds
  the title as it is, in the \<open>title\<close> and the \<open>h1\<close> elements, the date as it is, and
  the bold \<open>world\<close> between the opening and the closing tag of the article; the post
  returned, and written to \<open>posts.json\<close>, has the slug of the file name and the title,
  date and description of the frontmatter.
\<close>

theorem build_posts_hello:
  assumes "suffix (lit ''.md'') name"
    and "sublist (lit ''<strong>world</strong>'') (markdown (lit ''Hello **world**''))"
  shows \<open>\<exists>html a b c d line1 line2 line3.
     build_posts markdown [(name, hello_file)] =
       Inr ([Mkdir (lit ''posts''),
             Write (lit ''posts/'' @ get_slug_from_filename name @ lit ''.html'') html,
             Print line1,
             Write (lit ''posts.json'')
               (json_dumps (JList [JDict [(lit ''title'', JString (lit ''Hello'')),
                                          (lit ''date'', JString (lit ''2025-01-01'')),
                                          (lit ''slug'', JString (get_slug_from_filename name)),
                                          (lit ''description'', JString (lit ''A test''))]]) 2),
             Print line2, Print line3],
            [[(lit ''title'', lit ''Hello''), (lit ''date'', lit ''2025-01-01''),
              (lit ''slug'', get_slug_from_filename name), (lit ''description'', lit ''A test'')]])
   \<and> sublist (lit ''<title>Hello - Jack Wittmayer</title>'') html
   \<and> sublist (lit ''<h1>Hello</h1>'') html
   \<and> sublist (lit ''<p class="post-date">2025-01-01</p>'') html
   \<and> html = a @ lit ''<article class="blog-post">'' @ b @ lit ''<strong>world</strong>'' @ c
             @ lit ''</article>'' @ d\<close>
proof -
  obtain metadata where p: "parse_frontmatter hello_file = Inr (metadata, lit ''Hello **world**'')"
    and t: "metadata (lit ''title'') = Some (lit ''Hello'')"
    and d: "metadata (lit ''date'') = Some (lit ''2025-01-01'')"
    and ds: "metadata (lit ''description'') = Some (lit ''A test'')"
    using hello_file_parsed by blast
  let ?slug = "get_slug_from_filename name"
  let ?html = "generate_html_file (lit ''Hello'') (lit ''2025-01-01'') (markdown (lit ''Hello **world**'')) ?slug"
  have pp: "process_post markdown (name, hello_file) =
     Inr ([Write (lit ''posts/'' @ ?slug @ lit ''.html'') ?html,
           Print (10003 # lit '' Built '' @ name @ lit '' -> '' @ ?slug @ lit ''.html'')],
          [(lit ''title'', lit ''Hello''), (lit ''date'', lit ''2025-01-01''),
           (lit ''slug'', ?slug), (lit ''description'', lit ''A test'')])"
    by (simp add: process_post_parsed[OF p] dict_get_def t d ds)
  have files: "sorted_reverse (glob_md [(name, hello_file)]) = [(name, hello_file)]"
    using assms(1) by (simp add: glob_md_def sorted_reverse_single)
  have run: "build_posts markdown [(name, hello_file)] =
       Inr ([Mkdir (lit ''posts''),
             Write (lit ''posts/'' @ ?slug @ lit ''.html'') ?html,
             Print (10003 # lit '' Built '' @ name @ lit '' -> '' @ ?slug @ lit ''.html''),
             Write (lit ''posts.json'')
               (json_dumps (JList [JDict [(lit ''title'', JString (lit ''Hello'')),
                                          (lit ''date'', JString (lit ''2025-01-01'')),
                                          (lit ''slug'', JString ?slug),
                                          (lit ''description'', JString (lit ''A test''))]]) 2),
             Print (10003 # lit '' Generated posts.json with posts metadata''),
             Print (NL # 10003 # lit '' Successfully built '' @ str_of_nat 1 @ lit '' posts!'')],
            [[(lit ''title'', lit ''Hello''), (lit ''date'', lit ''2025-01-01''),
              (lit ''slug'', ?slug), (lit ''description'', lit ''A test'')]])"
    unfolding build_posts_result files
    by (simp add: Let_def pp generate_posts_json_def post_json_def del: str_of_nat.simps)
  obtain A B C D E F G where parts: "\<And>title date body_html slug.
     generate_html_file title date body_html slug =
       A @ lit ''<title>'' @ title @ lit '' - Jack Wittmayer</title>''
       @ B @ lit ''<article class=\"blog-post\">''
       @ C @ lit ''<h1>'' @ title @ lit ''</h1>''
       @ D @ lit ''<p class=\"post-date\">'' @ date @ lit ''</p>''
       @ E @ body_html @ F @ lit ''</article>'' @ G"
    using generate_html_file_parts by blast
  obtain x y where md: "markdown (lit ''Hello **world**'') = x @ lit ''<strong>world</strong>'' @ y"
    using assms(2) by (auto simp: sublist_def)
  have h: "?html = A @ lit ''<title>'' @ lit ''Hello'' @ lit '' - Jack Wittmayer</title>''
       @ B @ lit ''<article class=\"blog-post\">''
       @ C @ lit ''<h1>'' @ lit ''Hello'' @ lit ''</h1>''
       @ D @ lit ''<p class=\"post-date\">'' @ lit ''2025-01-01'' @ lit ''</p>''
       @ E @ (x @ lit ''<strong>world</strong>'' @ y) @ F @ lit ''</article>'' @ G"
    by (simp only: parts md)
  have s1: "sublist (lit ''<title>Hello - Jack Wittmayer</title>'') ?html"
  proof -
    have "?html = A @ lit ''<title>Hello - Jack Wittmayer</title>'' @ (B @ lit ''<article class=\"blog-post\">''
       @ C @ lit ''<h1>'' @ lit ''Hello'' @ lit ''</h1>''
       @ D @ lit ''<p class=\"post-date\">'' @ lit ''2025-01-01'' @ lit ''</p>''
       @ E @ (x @ lit ''<strong>world</strong>'' @ y) @ F @ lit ''</article>'' @ G)"
      unfolding h by (simp add: lit_def)
    then show ?thesis by (simp only: sublist_mid)
  qed
  have s2: "sublist (lit ''<h1>Hello</h1>'') ?html"
  proof -
    have "?html = (A @ lit ''<title>'' @ lit ''Hello'' @ lit '' - Jack Wittmayer</title>''
       @ B @ lit ''<article class=\"blog-post\">'' @ C) @ lit ''<h1>Hello</h1>''
       @ (D @ lit ''<p class=\"post-date\">'' @ lit ''2025-01-01'' @ lit ''</p>''
       @ E @ (x @ lit ''<strong>world</strong>'' @ y) @ F @ lit ''</article>'' @ G)"
      unfolding h by (simp add: lit_def)
    then show ?thesis by (simp only: sublist_mid)
  qed
  have s3: "sublist (lit ''<p class=\"post-date\">2025-01-01</p>'') ?html"
  proof -
    have "?html = (A @ lit ''<title>'' @ lit ''Hello'' @ lit '' - Jack Wittmayer</title>''
       @ B @ lit ''<article class=\"blog-post\">'' @ C @ lit ''<h1>'' @ lit ''Hello'' @ lit ''</h1>'' @ D)
       @ lit ''<p class=\"post-date\">2025-01-01</p>''
       @ (E @ (x @ lit ''<strong>world</strong>'' @ y) @ F @ lit ''</article>'' @ G)"
      unfolding h by (simp add: lit_def)
    then show ?thesis by (simp only: sublist_mid)
  qed
  have s4: "?html = (A @ lit ''<title>'' @ lit ''Hello'' @ lit '' - Jack Wittmayer</title>'' @ B)
       @ lit ''<article class=\"blog-post\">''
       @ (C @ lit ''<h1>'' @ lit ''Hello'' @ lit ''</h1>''
          @ D @ lit ''<p class=\"post-date\">'' @ lit ''2025-01-01'' @ lit ''</p>'' @ E @ x)
       @ lit ''<strong>world</strong>'' @ (y @ F) @ lit ''</article>'' @ G"
    unfolding h by simp
  from run s1 s2 s3 s4 show ?thesis by blast
qed

theorem build_posts_hello_witness:
  "suffix (lit ''.md'') (lit ''2025-01-01-hello.md'')
   \<and> sublist (lit ''<strong>world</strong>'') (hello_markdown (lit ''Hello **world**''))
   \<and> (\<exists>html rest.
        build_posts hello_markdown [(lit ''2025-01-01-hello.md'', hello_file)] =
          Inr (Mkdir (lit ''posts'') # Write (lit ''posts/hello.html'') html # rest,
               [[(lit ''title'', lit ''Hello''), (lit ''date'', lit ''2025-01-01''),
                 (lit ''slug'', lit ''hello''), (lit ''description'', lit ''A test'')]])
      \<and> sublist (lit ''<h1>Hello</h1>'') html)"
proof -
  have s: "suffix (lit ''.md'') (lit ''2025-01-01-hello.md'')"
    by (simp add: suffix_to_prefix lit_def)
  have "hello_markdown (lit ''Hello **world**'') = lit ''<p>Hello '' @ lit ''<strong>world</strong>'' @ lit ''</p>''"
    by (simp add: hello_markdown_def lit_def)
  then have b: "sublist (lit ''<strong>world</strong>'') (hello_markdown (lit ''Hello **world**''))"
    by (simp only: sublist_mid)
  have slug: "get_slug_from_filename (lit ''2025-01-01-hello.md'') = lit ''hello''"
    by (simp add: get_slug_from_filename_def py_replace_def lit_def HYPHEN_def Let_def)
  have path: "lit ''posts/'' @ lit ''hello'' @ lit ''.html'' = lit ''posts/hello.html''"
    by (simp add: lit_def)
  from build_posts_hello[of "lit ''2025-01-01-hello.md''" hello_markdown, OF s b]
  obtain html a b' c d line1 line2 line3 where
    r: "build_posts hello_markdown [(lit ''2025-01-01-hello.md'', hello_file)] =
       Inr ([Mkdir (lit ''posts''),
             Write (lit ''posts/'' @ get_slug_from_filename (lit ''2025-01-01-hello.md'') @ lit ''.html'') html,
             Print line1,
             Write (lit ''posts.json'')
               (json_dumps (JList [JDict [(lit ''title'', JString (lit ''Hello'')),
                                          (lit ''date'', JString (lit ''2025-01-01'')),
                                          (lit ''slug'', JString (get_slug_from_filename (lit ''2025-01-01-hello.md''))),
                                          (lit ''description'', JString (lit ''A test''))]]) 2),
             Print line2, Print line3],
            [[(lit ''title'', lit ''Hello''), (lit ''date'', lit ''2025-01-01''),
              (lit ''slug'', get_slug_from_filename (lit ''2025-01-01-hello.md'')),
              (lit ''description'', lit ''A test'')]])"
    and h1: "sublist (lit ''<h1>Hello</h1>'') html"
    by blast
  from r h1 have "\<exists>html rest.
        build_posts hello_markdown [(lit ''2025-01-01-hello.md'', hello_file)] =
          Inr (Mkdir (lit ''posts'') # Write (lit ''posts/hello.html'') html # rest,
               [[(lit ''title'', lit ''Hello''), (lit ''date'', lit ''2025-01-01''),
                 (lit ''slug'', lit ''hello''), (lit ''description'', lit ''A test'')]])
      \<and> sublist (lit ''<h1>Hello</h1>'') html"
    unfolding slug path by blast
  with s b show ?thesis by (intro conjI)
qed

subsection \<open>Defaults\<close>




end
